theory Spec2Isabelle
  imports Main "HOL-Library.Word"
begin

text \<open>
  The three functions of \<^verbatim>\<open>server.js\<close> that recover the HTML of a resume from the reply
  of the model, decode it and print it: \<^verbatim>\<open>parseAIResponse\<close>, \<^verbatim>\<open>decodeHTMLContent\<close> and
  \<^verbatim>\<open>convertHTMLtoPDF\<close>, with the string operations, regular expressions and
  \<^verbatim>\<open>JSON.parse\<close> they rest on.
\<close>

section \<open>JavaScript strings\<close>

text \<open>
  A JavaScript string is a sequence of 16-bit code units.  The function \<open>js\<close> writes an
  ASCII literal as such a sequence.  A HOL string literal cannot hold a backslash, so the
  backslash is the constant \<open>BSL\<close>.
\<close>

type_synonym jschar = "16 word"
type_synonym jsstring = "jschar list"

definition js :: "string \<Rightarrow> jsstring" where
  "js s = map of_char s"

definition BSL :: jschar where
  "BSL = 0x5C"

text \<open>
  The characters of \<^verbatim>\<open>\s\<close> in a regular expression, which are also the characters
  \<^verbatim>\<open>String.prototype.trim\<close> removes: WhiteSpace and LineTerminator of ECMAScript
  (TAB, LF, VT, FF, CR, SP, NBSP, the space separators of Unicode, LS, PS and ZWNBSP).
\<close>

definition is_space :: "jschar \<Rightarrow> bool" where
  "is_space c \<longleftrightarrow>
     c = 0x09 \<or> c = 0x0A \<or> c = 0x0B \<or> c = 0x0C \<or> c = 0x0D \<or> c = 0x20 \<or> c = 0xA0 \<or>
     c = 0x1680 \<or> (0x2000 \<le> c \<and> c \<le> 0x200A) \<or> c = 0x2028 \<or> c = 0x2029 \<or>
     c = 0x202F \<or> c = 0x205F \<or> c = 0x3000 \<or> c = 0xFEFF"

definition trim :: "jsstring \<Rightarrow> jsstring" where
  "trim s = rev (dropWhile is_space (rev (dropWhile is_space s)))"

definition startsWith :: "jsstring \<Rightarrow> jsstring \<Rightarrow> bool" where
  "startsWith s p \<longleftrightarrow> take (length p) s = p"

definition endsWith :: "jsstring \<Rightarrow> jsstring \<Rightarrow> bool" where
  "endsWith s p \<longleftrightarrow> length p \<le> length s \<and> drop (length s - length p) s = p"

text \<open>
  \<^verbatim>\<open>s.slice(3, -3)\<close>: from index 3 to index \<open>length s - 3\<close>, and the empty string when
  the end is not after the start.
\<close>

definition slice_3_3 :: "jsstring \<Rightarrow> jsstring" where
  "slice_3_3 s = (if length s \<le> 6 then [] else take (length s - 6) (drop 3 s))"

section \<open>Regular expressions\<close>

text \<open>
  A pattern is a function that tries to match at the start of a string and returns what
  follows the match.  The patterns of the program are built from literals, \<^verbatim>\<open>\s*\<close>,
  one alternation and the lazy \<^verbatim>\<open>[\s\S]*?\<close>.  In each of them a greedy \<^verbatim>\<open>\s*\<close> is
  followed by a literal that is not white space or by the end of the pattern, and the
  alternation and the lazy star are followed by nothing that could fail after their
  first success, so the backtracking matcher of JavaScript finds exactly the match
  computed here.
\<close>

type_synonym pattern = "jsstring \<Rightarrow> jsstring option"

definition lit :: "jsstring \<Rightarrow> pattern" where
  "lit p s = (if take (length p) s = p then Some (drop (length p) s) else None)"

text \<open>
  Flag \<^verbatim>\<open>i\<close>: two code units match when their canonical forms agree.  For the ASCII
  letters of the pattern this is the upper-case form; a code unit outside ASCII never
  canonicalises to an ASCII one.
\<close>

definition canon :: "jschar \<Rightarrow> jschar" where
  "canon c = (if 0x61 \<le> c \<and> c \<le> 0x7A then c - 0x20 else c)"

definition lit_ci :: "jsstring \<Rightarrow> pattern" where
  "lit_ci p s =
     (if map canon (take (length p) s) = map canon p then Some (drop (length p) s) else None)"

definition spaces :: pattern where
  "spaces s = Some (dropWhile is_space s)"

definition seq :: "pattern \<Rightarrow> pattern \<Rightarrow> pattern" where
  "seq p q s = (case p s of None \<Rightarrow> None | Some r \<Rightarrow> q r)"

definition alt :: "pattern \<Rightarrow> pattern \<Rightarrow> pattern" where
  "alt p q s = (case p s of None \<Rightarrow> q s | Some r \<Rightarrow> Some r)"

text \<open>
  \<^verbatim>\<open>[\s\S]*?\<close> followed by the pattern \<open>p\<close>: the shortest prefix after which \<open>p\<close>
  matches.  The result is that prefix and what follows the match of \<open>p\<close>.
\<close>

fun lazy_any :: "pattern \<Rightarrow> jsstring \<Rightarrow> (jsstring \<times> jsstring) option" where
  "lazy_any p [] = (case p [] of None \<Rightarrow> None | Some r \<Rightarrow> Some ([], r))"
| "lazy_any p (c # cs) =
     (case p (c # cs) of
        Some r \<Rightarrow> Some ([], r)
      | None \<Rightarrow> (case lazy_any p cs of None \<Rightarrow> None | Some (v, r) \<Rightarrow> Some (c # v, r)))"

text \<open>
  \<^verbatim>\<open>String.prototype.match\<close> without flag \<^verbatim>\<open>g\<close>: the match at the leftmost index
  where the expression matches.
\<close>

fun re_search :: "(jsstring \<Rightarrow> 'a option) \<Rightarrow> jsstring \<Rightarrow> 'a option" where
  "re_search m [] = m []"
| "re_search m (c # cs) = (case m (c # cs) of Some x \<Rightarrow> Some x | None \<Rightarrow> re_search m cs)"

text \<open>
  \<^verbatim>\<open>String.prototype.replace\<close> with flag \<^verbatim>\<open>g\<close> and a replacement without \<^verbatim>\<open>$\<close>:
  every match, found from left to right, each search starting where the previous match
  ended, is replaced.  The counter \<open>k\<close> is the number of code units of the current match
  still to be skipped.
\<close>

fun replace_g :: "pattern \<Rightarrow> jsstring \<Rightarrow> nat \<Rightarrow> jsstring \<Rightarrow> jsstring" where
  "replace_g p rep k [] = (if k = 0 \<and> p [] \<noteq> None then rep else [])"
| "replace_g p rep k (c # cs) =
     (if 0 < k then replace_g p rep (k - 1) cs
      else case p (c # cs) of
        None \<Rightarrow> c # replace_g p rep 0 cs
      | Some r \<Rightarrow>
          (if length r = Suc (length cs) then rep @ c # replace_g p rep 0 cs
           else rep @ replace_g p rep (length cs - length r) cs))"

definition replace_all :: "pattern \<Rightarrow> jsstring \<Rightarrow> jsstring \<Rightarrow> jsstring" where
  "replace_all p rep s = replace_g p rep 0 s"

section \<open>decodeHTMLContent\<close>

text \<open>The eleven substitutions of \<^verbatim>\<open>decodeHTMLContent\<close>, in the order of the source.\<close>

definition decode_steps :: "(jsstring \<times> jsstring) list" where
  "decode_steps =
    [([BSL, 0x6E], [0x0A]),
     ([BSL, 0x22], [0x22]),
     ([BSL, 0x74], [0x09]),
     ([BSL, 0x72], [0x0D]),
     ([BSL, BSL], [BSL]),
     ([BSL, 0x27], [0x27]),
     (js ''&quot;'', [0x22]),
     (js ''&amp;'', js ''&''),
     (js ''&lt;'', js ''<''),
     (js ''&gt;'', js ''>''),
     (js ''&#39;'', [0x27])]"

definition decodeHTMLContent :: "jsstring \<Rightarrow> jsstring" where
  "decodeHTMLContent htmlContent =
     (if htmlContent = [] then []
      else fold (\<lambda>(p, r) s. replace_all (lit p) r s) decode_steps htmlContent)"

section \<open>JSON.parse\<close>

text \<open>
  \<^verbatim>\<open>JSON.parse\<close> is a built-in of the language; it is modelled after the JSON grammar of
  ECMAScript.  A number keeps its sign, the digits of its integer and fraction parts as
  a natural number and its decimal exponent, so \<open>JNumber neg m e\<close> stands for
  plus or minus \<open>m * 10 ^ e\<close>.  An object keeps its members in the order of the text; of
  two members with the same key the later one is the property.
\<close>

datatype json =
    JNull
  | JBool bool
  | JNumber bool nat int
  | JString jsstring
  | JArray "json list"
  | JObject "(jsstring \<times> json) list"

datatype token =
    LBrace | RBrace | LBracket | RBracket | Colon | Comma
  | TString jsstring
  | TNumber bool nat int
  | TTrue | TFalse | TNull

definition is_json_ws :: "jschar \<Rightarrow> bool" where
  "is_json_ws c \<longleftrightarrow> c = 0x09 \<or> c = 0x0A \<or> c = 0x0D \<or> c = 0x20"

definition is_digit :: "jschar \<Rightarrow> bool" where
  "is_digit c \<longleftrightarrow> 0x30 \<le> c \<and> c \<le> 0x39"

definition hex_digit :: "jschar \<Rightarrow> jschar option" where
  "hex_digit c =
     (if 0x30 \<le> c \<and> c \<le> 0x39 then Some (c - 0x30)
      else if 0x41 \<le> c \<and> c \<le> 0x46 then Some (c - 0x37)
      else if 0x61 \<le> c \<and> c \<le> 0x66 then Some (c - 0x57)
      else None)"

definition json_escape :: "jschar \<Rightarrow> jschar option" where
  "json_escape c =
     (if c = 0x22 then Some 0x22
      else if c = 0x5C then Some 0x5C
      else if c = 0x2F then Some 0x2F
      else if c = 0x62 then Some 0x08
      else if c = 0x66 then Some 0x0C
      else if c = 0x6E then Some 0x0A
      else if c = 0x72 then Some 0x0D
      else if c = 0x74 then Some 0x09
      else None)"

text \<open>
  The characters of a string literal after its opening quote: the decoded string and
  what follows the closing quote.
\<close>

fun json_string :: "jsstring \<Rightarrow> (jsstring \<times> jsstring) option" where
  "json_string [] = None"
| "json_string (c # cs) =
     (if c = 0x22 then Some ([], cs)
      else if c = 0x5C then
        (case cs of
           [] \<Rightarrow> None
         | e # r \<Rightarrow>
             if e = 0x75 then
               (case r of
                  h1 # h2 # h3 # h4 # r' \<Rightarrow>
                    (case (hex_digit h1, hex_digit h2, hex_digit h3, hex_digit h4) of
                       (Some a, Some b, Some c', Some d) \<Rightarrow>
                         (case json_string r' of
                            None \<Rightarrow> None
                          | Some (v, t) \<Rightarrow>
                              Some ((a * 0x1000 + b * 0x100 + c' * 0x10 + d) # v, t))
                     | _ \<Rightarrow> None)
                | _ \<Rightarrow> None)
             else
               (case json_escape e of
                  None \<Rightarrow> None
                | Some u \<Rightarrow>
                    (case json_string r of None \<Rightarrow> None | Some (v, t) \<Rightarrow> Some (u # v, t))))
      else if c < 0x20 then None
      else (case json_string cs of None \<Rightarrow> None | Some (v, t) \<Rightarrow> Some (c # v, t)))"

definition digits_value :: "jsstring \<Rightarrow> nat" where
  "digits_value ds = foldl (\<lambda>a d. 10 * a + unat (d - 0x30)) 0 ds"

text \<open>
  A number literal: an optional minus, \<^verbatim>\<open>0\<close> or a digit sequence that does not start
  with \<^verbatim>\<open>0\<close>, an optional fraction and an optional exponent, each with at least one
  digit.
\<close>

definition json_number :: "jsstring \<Rightarrow> (token \<times> jsstring) option" where
  "json_number s =
     (let neg = (take 1 s = [0x2D]);
          s1 = (if neg then drop 1 s else s);
          ip = (if take 1 s1 = [0x30] then [0x30] else takeWhile is_digit s1);
          s2 = drop (length ip) s1;
          has_frac = (take 1 s2 = [0x2E]);
          fp = (if has_frac then takeWhile is_digit (drop 1 s2) else []);
          s3 = (if has_frac then drop (Suc (length fp)) s2 else s2);
          has_exp = (take 1 s3 = [0x65] \<or> take 1 s3 = [0x45]);
          s4 = (if has_exp then drop 1 s3 else s3);
          eneg = (has_exp \<and> take 1 s4 = [0x2D]);
          s5 = (if has_exp \<and> (take 1 s4 = [0x2D] \<or> take 1 s4 = [0x2B]) then drop 1 s4 else s4);
          ep = (if has_exp then takeWhile is_digit s5 else []);
          s6 = drop (length ep) s5;
          ev = (if eneg then - int (digits_value ep) else int (digits_value ep))
      in if ip = [] \<or> (has_frac \<and> fp = []) \<or> (has_exp \<and> ep = []) then None
         else Some (TNumber neg (digits_value (ip @ fp)) (ev - int (length fp)), s6))"

definition token_at :: "jsstring \<Rightarrow> (token \<times> jsstring) option" where
  "token_at s =
     (case s of
        [] \<Rightarrow> None
      | c # cs \<Rightarrow>
          if c = 0x7B then Some (LBrace, cs)
          else if c = 0x7D then Some (RBrace, cs)
          else if c = 0x5B then Some (LBracket, cs)
          else if c = 0x5D then Some (RBracket, cs)
          else if c = 0x3A then Some (Colon, cs)
          else if c = 0x2C then Some (Comma, cs)
          else if c = 0x22 then
            (case json_string cs of None \<Rightarrow> None | Some (v, r) \<Rightarrow> Some (TString v, r))
          else if c = 0x2D \<or> is_digit c then json_number s
          else if take 4 s = js ''true'' then Some (TTrue, drop 4 s)
          else if take 5 s = js ''false'' then Some (TFalse, drop 5 s)
          else if take 4 s = js ''null'' then Some (TNull, drop 4 s)
          else None)"

text \<open>
  The tokens of a text; \<open>k\<close> is the number of code units of the current token still to
  be skipped.  White space between tokens is TAB, LF, CR and SP only.
\<close>

fun lex :: "nat \<Rightarrow> jsstring \<Rightarrow> token list option" where
  "lex k [] = Some []"
| "lex k (c # cs) =
     (if 0 < k then lex (k - 1) cs
      else if is_json_ws c then lex 0 cs
      else case token_at (c # cs) of
        None \<Rightarrow> None
      | Some (t, r) \<Rightarrow>
          (case lex (length cs - length r) cs of None \<Rightarrow> None | Some ts \<Rightarrow> Some (t # ts)))"

text \<open>
  The recursive-descent parser.  Its first argument bounds the depth of the recursion;
  \<open>fuel\<close> gives a bound that the parse of a token list never reaches.
\<close>

fun parse_value :: "nat \<Rightarrow> token list \<Rightarrow> (json \<times> token list) option"
  and parse_elements :: "nat \<Rightarrow> token list \<Rightarrow> (json list \<times> token list) option"
  and parse_members :: "nat \<Rightarrow> token list \<Rightarrow> ((jsstring \<times> json) list \<times> token list) option"
where
  "parse_value 0 ts = None"
| "parse_value (Suc n) [] = None"
| "parse_value (Suc n) (t # ts) =
     (case t of
        TNull \<Rightarrow> Some (JNull, ts)
      | TTrue \<Rightarrow> Some (JBool True, ts)
      | TFalse \<Rightarrow> Some (JBool False, ts)
      | TNumber neg m e \<Rightarrow> Some (JNumber neg m e, ts)
      | TString s \<Rightarrow> Some (JString s, ts)
      | LBracket \<Rightarrow>
          (case ts of
             RBracket # r \<Rightarrow> Some (JArray [], r)
           | _ \<Rightarrow> (case parse_elements n ts of None \<Rightarrow> None | Some (vs, r) \<Rightarrow> Some (JArray vs, r)))
      | LBrace \<Rightarrow>
          (case ts of
             RBrace # r \<Rightarrow> Some (JObject [], r)
           | _ \<Rightarrow> (case parse_members n ts of None \<Rightarrow> None | Some (kvs, r) \<Rightarrow> Some (JObject kvs, r)))
      | _ \<Rightarrow> None)"
| "parse_elements 0 ts = None"
| "parse_elements (Suc n) ts =
     (case parse_value n ts of
        None \<Rightarrow> None
      | Some (v, r) \<Rightarrow>
          (case r of
             Comma # r' \<Rightarrow>
               (case parse_elements n r' of None \<Rightarrow> None | Some (vs, r'') \<Rightarrow> Some (v # vs, r''))
           | RBracket # r' \<Rightarrow> Some ([v], r')
           | _ \<Rightarrow> None))"
| "parse_members 0 ts = None"
| "parse_members (Suc n) ts =
     (case ts of
        TString k # Colon # r \<Rightarrow>
          (case parse_value n r of
             None \<Rightarrow> None
           | Some (v, r') \<Rightarrow>
               (case r' of
                  Comma # r'' \<Rightarrow>
                    (case parse_members n r'' of
                       None \<Rightarrow> None
                     | Some (kvs, r3) \<Rightarrow> Some ((k, v) # kvs, r3))
                | RBrace # r'' \<Rightarrow> Some ([(k, v)], r'')
                | _ \<Rightarrow> None))
      | _ \<Rightarrow> None)"

fun fuel :: "token list \<Rightarrow> nat" where
  "fuel [] = Suc 0"
| "fuel (t # ts) = Suc (Suc (fuel ts))"

text \<open>The whole text is one value; \<open>None\<close> is the SyntaxError.\<close>

definition JSON_parse :: "jsstring \<Rightarrow> json option" where
  "JSON_parse s =
     (case lex 0 s of
        None \<Rightarrow> None
      | Some ts \<Rightarrow> (case parse_value (fuel ts) ts of Some (v, []) \<Rightarrow> Some v | _ \<Rightarrow> None))"

section \<open>parseAIResponse\<close>

datatype error = Error string

text \<open>
  Reading the property \<^verbatim>\<open>htmlres\<close> of a parsed value.  On \<^verbatim>\<open>null\<close> the access
  throws a TypeError (\<open>Inl\<close>); a number, a boolean, a string and an array have no such
  property, and the result is \<^verbatim>\<open>undefined\<close> (\<open>None\<close>).
\<close>

fun get_property :: "json \<Rightarrow> jsstring \<Rightarrow> unit + json option" where
  "get_property JNull k = Inl ()"
| "get_property (JObject kvs) k = Inr (map_of (rev kvs) k)"
| "get_property v k = Inr None"

text \<open>
  The test of an \<^verbatim>\<open>if\<close>: \<^verbatim>\<open>null\<close>, \<^verbatim>\<open>false\<close>, the empty string and a number
  that is zero are falsy, every array and object is truthy.  A JSON number, rounded to
  the nearest double, is zero when its digits are all zero or when its value is at most
  half of the smallest positive double, \<open>2\<close> to the power \<open>- 1075\<close>.
\<close>

definition is_zero_double :: "nat \<Rightarrow> int \<Rightarrow> bool" where
  "is_zero_double m e \<longleftrightarrow> m = 0 \<or> (e < 0 \<and> m * 2 ^ 1075 \<le> 10 ^ nat (- e))"

fun truthy :: "json \<Rightarrow> bool" where
  "truthy JNull = False"
| "truthy (JBool b) = b"
| "truthy (JNumber neg m e) = (\<not> is_zero_double m e)"
| "truthy (JString s) = (s \<noteq> [])"
| "truthy (JArray vs) = True"
| "truthy (JObject kvs) = True"

text \<open>The expression \<^verbatim>\<open>/```json\s*|\s*```/\<close>.\<close>

definition fence_json_re :: pattern where
  "fence_json_re = alt (seq (lit (js ''```json'')) spaces) (seq spaces (lit (js ''```'')))"

text \<open>The expression \<^verbatim>\<open>/"htmlres"\s*:\s*"([\s\S]*?)"\s*}/\<close>; the result is its group 1.\<close>

definition htmlres_open :: pattern where
  \<open>htmlres_open = seq (lit (js ''"htmlres"'')) (seq spaces (seq (lit (js '':'')) (seq spaces (lit (js ''"'')))))\<close>

definition htmlres_close :: pattern where
  \<open>htmlres_close = seq (lit (js ''"'')) (seq spaces (lit (js ''}'')))\<close>

definition htmlres_re :: "jsstring \<Rightarrow> jsstring option" where
  "htmlres_re s =
     (case htmlres_open s of
        None \<Rightarrow> None
      | Some r \<Rightarrow> (case lazy_any htmlres_close r of None \<Rightarrow> None | Some (v, t) \<Rightarrow> Some v))"

text \<open>The expression \<^verbatim>\<open>/<html[\s\S]*?<\/html>/i\<close>; the result is the whole match.\<close>

definition html_re :: "jsstring \<Rightarrow> jsstring option" where
  "html_re s =
     (case lit_ci (js ''<html'') s of
        None \<Rightarrow> None
      | Some r \<Rightarrow>
          (case lazy_any (lit_ci (js ''</html>'')) r of
             None \<Rightarrow> None
           | Some (v, t) \<Rightarrow> Some (take (length s - length t) s)))"

text \<open>The text handed to \<^verbatim>\<open>JSON.parse\<close>.\<close>

definition cleanResponse :: "jsstring \<Rightarrow> jsstring" where
  "cleanResponse aiResponse =
     (let c = trim (replace_all fence_json_re [] aiResponse)
      in if startsWith c (js ''```'') \<and> endsWith c (js ''```'') then trim (slice_3_3 c) else c)"

text \<open>
  The inner \<^verbatim>\<open>try\<close>: \<open>Some v\<close> when it returns \<open>v\<close>, \<open>None\<close> when the program goes on
  to the fallbacks, after a SyntaxError or a TypeError was caught or because the
  property is falsy.
\<close>

definition json_path :: "jsstring \<Rightarrow> json option" where
  "json_path c =
     (case JSON_parse c of
        None \<Rightarrow> None
      | Some jsonResponse \<Rightarrow>
          (case get_property jsonResponse (js ''htmlres'') of
             Inl _ \<Rightarrow> None
           | Inr None \<Rightarrow> None
           | Inr (Some v) \<Rightarrow> if truthy v then Some v else None))"

text \<open>
  The two fallbacks work on the response as it came, not on the cleaned text.  A value
  found by a regular expression is a string.
\<close>

definition parseAIResponse :: "jsstring \<Rightarrow> error + json" where
  "parseAIResponse aiResponse =
     (case json_path (cleanResponse aiResponse) of
        Some v \<Rightarrow> Inr v
      | None \<Rightarrow>
          (case re_search htmlres_re aiResponse of
             Some htmlMatch \<Rightarrow> Inr (JString htmlMatch)
           | None \<Rightarrow>
               (case re_search html_re aiResponse of
                  Some directHtmlMatch \<Rightarrow> Inr (JString directHtmlMatch)
                | None \<Rightarrow> Inl (Error ''Could not extract HTML content from AI response''))))"

section \<open>convertHTMLtoPDF\<close>

text \<open>
  The browser engine is outside the program.  An \<open>engine\<close> fixes what each of its calls
  does in one run: it succeeds, or it throws an error.  The function returns its result
  together with the calls it made, in order.
\<close>

record launch_options =
  headless :: string
  args :: "string list"

record content_options =
  waitUntil :: string
  timeout :: nat

record pdf_options =
  format :: string
  printBackground :: bool
  margin_top :: string
  margin_right :: string
  margin_bottom :: string
  margin_left :: string
  preferCSSPageSize :: bool
  pageRanges :: string

datatype event =
    Launch launch_options
  | NewPage
  | SetContent jsstring content_options
  | Pdf pdf_options
  | Close

record engine =
  launch :: "launch_options \<Rightarrow> error option"
  newPage :: "error option"
  setContent :: "jsstring \<Rightarrow> content_options \<Rightarrow> error option"
  pdf :: "pdf_options \<Rightarrow> error + 8 word list"
  close :: "error option"

definition the_launch_options :: launch_options where
  "the_launch_options =
     \<lparr>headless = ''new'',
      args = [''--no-sandbox'', ''--disable-setuid-sandbox'', ''--disable-dev-shm-usage'',
              ''--disable-accelerated-2d-canvas'', ''--no-first-run'', ''--no-zygote'',
              ''--single-process'', ''--disable-gpu'']\<rparr>"

definition the_content_options :: content_options where
  "the_content_options = \<lparr>waitUntil = ''networkidle0'', timeout = 30000\<rparr>"

definition the_pdf_options :: pdf_options where
  "the_pdf_options =
     \<lparr>format = ''A4'', printBackground = True,
      margin_top = ''0.5in'', margin_right = ''0.5in'',
      margin_bottom = ''0.5in'', margin_left = ''0.5in'',
      preferCSSPageSize = True, pageRanges = ''1''\<rparr>"

text \<open>The expression \<^verbatim>\<open>/```html\s*|\s*```/\<close>.\<close>

definition fence_html_re :: pattern where
  "fence_html_re = alt (seq (lit (js ''```html'')) spaces) (seq spaces (lit (js ''```'')))"

text \<open>
  The \<^verbatim>\<open>try\<close> block: its outcome, the calls made, and whether \<^verbatim>\<open>browser\<close> was
  assigned.
\<close>

definition try_block :: "engine \<Rightarrow> jsstring \<Rightarrow> (error + 8 word list) \<times> event list \<times> bool" where
  "try_block e htmlContent =
     (if htmlContent = [] \<or> length (trim htmlContent) = 0 then
        (Inl (Error ''HTML content is empty''), [], False)
      else
        let cleanHTML = trim htmlContent;
            cleanHTML = trim (replace_all fence_html_re [] cleanHTML)
        in case launch e the_launch_options of
             Some err \<Rightarrow> (Inl err, [Launch the_launch_options], False)
           | None \<Rightarrow>
               (case newPage e of
                  Some err \<Rightarrow> (Inl err, [Launch the_launch_options, NewPage], True)
                | None \<Rightarrow>
                    (case setContent e cleanHTML the_content_options of
                       Some err \<Rightarrow>
                         (Inl err,
                          [Launch the_launch_options, NewPage,
                           SetContent cleanHTML the_content_options], True)
                     | None \<Rightarrow>
                         (pdf e the_pdf_options,
                          [Launch the_launch_options, NewPage,
                           SetContent cleanHTML the_content_options, Pdf the_pdf_options],
                          True))))"

text \<open>The \<^verbatim>\<open>catch\<close> clause wraps the message of whatever the \<^verbatim>\<open>try\<close> block threw.\<close>

fun catch_block :: "error + 8 word list \<Rightarrow> error + 8 word list" where
  "catch_block (Inl (Error message)) = Inl (Error (''Failed to convert HTML to PDF: '' @ message))"
| "catch_block (Inr pdfBuffer) = Inr pdfBuffer"

text \<open>
  The \<^verbatim>\<open>finally\<close> clause closes the browser when \<^verbatim>\<open>browser\<close> was assigned; an error
  thrown by \<^verbatim>\<open>close\<close> replaces the outcome.
\<close>

definition convertHTMLtoPDF :: "engine \<Rightarrow> jsstring \<Rightarrow> (error + 8 word list) \<times> event list" where
  "convertHTMLtoPDF e htmlContent =
     (case try_block e htmlContent of
        (r, calls, browser) \<Rightarrow>
          if browser then
            (case close e of
               Some err \<Rightarrow> (Inl err, calls @ [Close])
             | None \<Rightarrow> (catch_block r, calls @ [Close]))
          else (catch_block r, calls))"

text \<open>An engine whose calls all succeed and whose document is the four bytes \<^verbatim>\<open>%PDF\<close>.\<close>

definition working_engine :: engine where
  "working_engine =
     \<lparr>launch = (\<lambda>_. None), newPage = None, setContent = (\<lambda>_ _. None),
      pdf = (\<lambda>_. Inr [0x25, 0x50, 0x44, 0x46]), close = None\<rparr>"

section \<open>The bound of the parser\<close>

text \<open>What a parse leaves is shorter than what it was given.\<close>

lemma parse_shorter:
  "(\<forall>ts v r. parse_value n ts = Some (v, r) \<longrightarrow> length r < length ts) \<and>
   (\<forall>ts vs r. parse_elements n ts = Some (vs, r) \<longrightarrow> length r < length ts) \<and>
   (\<forall>ts kvs r. parse_members n ts = Some (kvs, r) \<longrightarrow> length r < length ts)"
proof (induction n)
  case 0
  then show ?case by simp
next
  case (Suc n)
  have v: "length r < length ts" if "parse_value (Suc n) ts = Some (v, r)" for ts v r
  proof (cases ts)
    case Nil
    then show ?thesis using that by simp
  next
    case (Cons t ts')
    then show ?thesis using that Suc.IH
      by (cases t) (auto split: list.splits token.splits option.splits, fastforce+)
  qed
  have e: "length r < length ts" if "parse_elements (Suc n) ts = Some (vs, r)" for ts vs r
    using that Suc.IH
    by (auto split: list.splits token.splits option.splits, fastforce+)
  have m: "length r < length ts" if "parse_members (Suc n) ts = Some (kvs, r)" for ts kvs r
    using that Suc.IH
    by (auto split: list.splits token.splits option.splits, fastforce+)
  show ?case using v e m by blast
qed

lemma parse_value_shorter: "parse_value n ts = Some (v, r) \<Longrightarrow> length r < length ts"
  using parse_shorter by blast

lemma parse_stable:
  "(\<forall>ts. 2 * length ts \<le> n \<longrightarrow> parse_value (Suc n) ts = parse_value n ts) \<and>
   (\<forall>ts. 2 * length ts + 1 \<le> n \<longrightarrow> parse_elements (Suc n) ts = parse_elements n ts) \<and>
   (\<forall>ts. 2 * length ts + 1 \<le> n \<longrightarrow> parse_members (Suc n) ts = parse_members n ts)"
proof (induction n)
  case 0
  show ?case by simp
next
  case (Suc m)
  note defs = parse_value.simps parse_elements.simps parse_members.simps
  have v: "parse_value (Suc (Suc m)) ts = parse_value (Suc m) ts" if b: "2 * length ts \<le> Suc m" for ts
  proof (cases ts)
    case Nil
    then show ?thesis by simp
  next
    case (Cons t ts')
    then have "2 * length ts' + 1 \<le> m" using b by simp
    then have h: "parse_elements (Suc m) ts' = parse_elements m ts'"
      "parse_members (Suc m) ts' = parse_members m ts'"
      using Suc.IH by blast+
    show ?thesis
      unfolding Cons parse_value.simps(3) [of "Suc m" t ts'] parse_value.simps(3) [of m t ts'] h
      by (rule refl)
  qed
  have e: "parse_elements (Suc (Suc m)) ts = parse_elements (Suc m) ts" if b: "2 * length ts + 1 \<le> Suc m" for ts
  proof -
    note L = parse_elements.simps(2) [of "Suc m" ts] and R = parse_elements.simps(2) [of m ts]
    have pv: "parse_value (Suc m) ts = parse_value m ts"
      using Suc.IH b by simp
    show ?thesis
    proof (cases "parse_value m ts")
      case None
      then show ?thesis unfolding L R using pv
            by (simp del: defs)
    next
      case (Some a)
      obtain x r where a: "a = (x, r)" by (cases a)
      have lr: "length r < length ts"
        using Some a parse_value_shorter by blast
      show ?thesis
      proof (cases r)
        case Nil
        then show ?thesis unfolding L R using pv Some a
            by (simp del: defs)
      next
        case (Cons t r')
        have "2 * length r' + 1 \<le> m" using lr b Cons by simp
        then have "parse_elements (Suc m) r' = parse_elements m r'"
          using Suc.IH by blast
        then show ?thesis unfolding L R using pv Some a Cons
            by (simp del: defs split: token.splits)
      qed
    qed
  qed
  have mm: "parse_members (Suc (Suc m)) ts = parse_members (Suc m) ts" if b: "2 * length ts + 1 \<le> Suc m" for ts
  proof -
    note L = parse_members.simps(2) [of "Suc m" ts] and R = parse_members.simps(2) [of m ts]
    show ?thesis
    proof (cases ts)
      case Nil
      then show ?thesis unfolding L R by (simp del: defs)
    next
      case c1: (Cons k ts1)
      show ?thesis
      proof (cases ts1)
        case Nil
        then show ?thesis unfolding L R using c1
            by (simp del: defs split: token.splits)
      next
        case c2: (Cons c ts2)
        have pv: "parse_value (Suc m) ts2 = parse_value m ts2"
          using Suc.IH b c1 c2 by simp
        show ?thesis
        proof (cases "parse_value m ts2")
          case None
          then show ?thesis unfolding L R using pv c1 c2
            by (simp del: defs split: token.splits)
        next
          case (Some a)
          obtain x r where a: "a = (x, r)" by (cases a)
          have lr: "length r < length ts2"
            using Some a parse_value_shorter by blast
          show ?thesis
          proof (cases r)
            case Nil
            then show ?thesis unfolding L R using pv Some a c1 c2
            by (simp del: defs split: token.splits)
          next
            case (Cons t r')
            have "2 * length r' + 1 \<le> m" using lr b Cons c1 c2 by simp
            then have "parse_members (Suc m) r' = parse_members m r'"
              using Suc.IH by blast
            then show ?thesis unfolding L R using pv Some a Cons c1 c2
            by (simp del: defs split: token.splits)
          qed
        qed
      qed
    qed
  qed
  show ?case using v e mm by blast
qed

lemma fuel_eq: "fuel ts = 2 * length ts + 1"
  by (induction ts) auto

text \<open>More fuel than \<open>fuel ts\<close> changes nothing: the bound is never the reason for a failure.\<close>

lemma parse_value_fuel: "parse_value (fuel ts + k) ts = parse_value (fuel ts) ts"
proof (induction k)
  case 0
  show ?case by simp
next
  case (Suc k)
  have "2 * length ts \<le> fuel ts + k" by (simp add: fuel_eq)
  then have "parse_value (Suc (fuel ts + k)) ts = parse_value (fuel ts + k) ts"
    using parse_stable by blast
  then show ?case using Suc.IH by simp
qed

text \<open>Some texts and their values; the last four are SyntaxErrors.\<close>

lemma JSON_parse_examples:
  \<open>JSON_parse (js ''{"a": [1, -2.5e3, true, null], "b": {}}'')
     = Some (JObject [(js ''a'', JArray [JNumber False 1 0, JNumber True 25 2, JBool True, JNull]),
                      (js ''b'', JObject [])])\<close>
  \<open>JSON_parse (js ''"a'' @ [BSL] @ js ''u0041'' @ [BSL] @ js ''n"'') = Some (JString [0x61, 0x41, 0x0A])\<close>
  \<open>JSON_parse (js ''{"a": 1,}'') = None\<close>
  \<open>JSON_parse (js ''[01]'') = None\<close>
  \<open>JSON_parse (js ''{"a": 1} x'') = None\<close>
  \<open>JSON_parse [] = None\<close>
  by code_simp+

section \<open>Searching and replacing\<close>

lemma re_search_None_iff:
  "re_search m s = None \<longleftrightarrow> (\<forall>i\<le>length s. m (drop i s) = None)"
proof (induction s)
  case Nil
  then show ?case by simp
next
  case (Cons c cs)
  show ?case
  proof
    assume a: "re_search m (c # cs) = None"
    then have h: "m (c # cs) = None" "re_search m cs = None"
      by (auto split: option.splits)
    show "\<forall>i\<le>length (c # cs). m (drop i (c # cs)) = None"
    proof (intro allI impI)
      fix i assume "i \<le> length (c # cs)"
      then show "m (drop i (c # cs)) = None"
        using h Cons.IH by (cases i) auto
    qed
  next
    assume a: "\<forall>i\<le>length (c # cs). m (drop i (c # cs)) = None"
    then have "m (drop 0 (c # cs)) = None" by blast
    moreover have "\<forall>i\<le>length cs. m (drop i cs) = None"
    proof (intro allI impI)
      fix i assume "i \<le> length cs"
      then have "m (drop (Suc i) (c # cs)) = None" using a by (metis Suc_le_mono length_Cons)
      then show "m (drop i cs) = None" by simp
    qed
    ultimately show "re_search m (c # cs) = None"
      using Cons.IH by simp
  qed
qed

lemma re_search_here: "m s = Some x \<Longrightarrow> re_search m s = Some x"
  by (cases s) auto

text \<open>A search skips a prefix in which the expression matches at no index.\<close>

lemma re_search_skip:
  "(\<And>i. i < length pre \<Longrightarrow> m (drop i (pre @ t)) = None) \<Longrightarrow>
   re_search m (pre @ t) = re_search m t"
proof (induction pre)
  case Nil
  then show ?case by simp
next
  case (Cons c cs)
  have "m (drop 0 ((c # cs) @ t)) = None"
    by (rule Cons.prems) simp
  then have h: "m (c # cs @ t) = None" by simp
  have "\<And>i. i < length cs \<Longrightarrow> m (drop i (cs @ t)) = None"
  proof -
    fix i assume "i < length cs"
    then have "m (drop (Suc i) ((c # cs) @ t)) = None"
      by (intro Cons.prems) simp
    then show "m (drop i (cs @ t)) = None" by simp
  qed
  then have "re_search m (cs @ t) = re_search m t"
    by (rule Cons.IH)
  then show ?case using h by simp
qed

text \<open>
  A literal of \<open>n\<close> code units that starts inside \<open>pre\<close> ends within the first \<open>n - 1\<close>
  code units of what follows \<open>pre\<close>.
\<close>

lemma window:
  assumes "i < length pre"
  shows "take n (drop i (pre @ t)) = take n (drop i (pre @ take (n - 1) t))"
proof -
  have "n - (length pre - i) \<le> n - 1" using assms by arith
  then show ?thesis using assms by (simp add: min_def)
qed

lemma lit_window:
  assumes "re_search (lit p) (pre @ take (length p - 1) t) = None" and "i < length pre"
  shows "lit p (drop i (pre @ t)) = None"
proof -
  have "i \<le> length (pre @ take (length p - 1) t)" using assms(2) by simp
  then have "lit p (drop i (pre @ take (length p - 1) t)) = None"
    using assms(1) unfolding re_search_None_iff by blast
  then show ?thesis
    using window [OF assms(2), of "length p" t] by (simp add: lit_def split: if_splits)
qed

lemma lit_ci_window:
  assumes "re_search (lit_ci p) (pre @ take (length p - 1) t) = None" and "i < length pre"
  shows "lit_ci p (drop i (pre @ t)) = None"
proof -
  have "i \<le> length (pre @ take (length p - 1) t)" using assms(2) by simp
  then have "lit_ci p (drop i (pre @ take (length p - 1) t)) = None"
    using assms(1) unfolding re_search_None_iff by blast
  then show ?thesis
    using window [OF assms(2), of "length p" t] by (simp add: lit_ci_def split: if_splits)
qed

text \<open>The lazy star stops at the first index where what follows it matches.\<close>

lemma lazy_any_first:
  "(\<And>i. i < length v \<Longrightarrow> p (drop i (v @ t)) = None) \<Longrightarrow> p t = Some r \<Longrightarrow>
   lazy_any p (v @ t) = Some (v, r)"
proof (induction v)
  case Nil
  then show ?case by (cases t) auto
next
  case (Cons c cs)
  have "p (drop 0 ((c # cs) @ t)) = None"
    by (rule Cons.prems(1)) simp
  then have h: "p (c # cs @ t) = None" by simp
  have "\<And>i. i < length cs \<Longrightarrow> p (drop i (cs @ t)) = None"
  proof -
    fix i assume "i < length cs"
    then have "p (drop (Suc i) ((c # cs) @ t)) = None"
      by (intro Cons.prems(1)) simp
    then show "p (drop i (cs @ t)) = None" by simp
  qed
  then have "lazy_any p (cs @ t) = Some (cs, r)"
    using Cons.prems(2) by (rule Cons.IH)
  then show ?case using h by simp
qed

lemma lit_append: "lit p (p @ x) = Some x"
  by (simp add: lit_def)

lemma lit_ci_match:
  "map canon opn = map canon p \<Longrightarrow> lit_ci p (opn @ x) = Some x"
proof -
  assume a: "map canon opn = map canon p"
  then have "length opn = length p" by (metis length_map)
  then show ?thesis using a by (simp add: lit_ci_def)
qed

lemma spaces_skip:
  "\<forall>c\<in>set w. is_space c \<Longrightarrow> \<not> is_space c \<Longrightarrow> spaces (w @ c # x) = Some (c # x)"
  by (simp add: spaces_def dropWhile_append)

text \<open>Where an expression matches nowhere, replacing its matches changes nothing.\<close>

lemma replace_g_no_match:
  "re_search p s = None \<Longrightarrow> replace_g p rep 0 s = s"
  by (induction s) (auto split: option.splits)

lemma fold_replace_no_match:
  "\<forall>(p, r) \<in> set steps. re_search (lit p) s = None \<Longrightarrow>
   fold (\<lambda>(p, r) s. replace_all (lit p) r s) steps s = s"
  by (induction steps) (auto simp: replace_all_def replace_g_no_match)

section \<open>The expression for the field\<close>

lemma htmlres_open_match:
  assumes "\<forall>c\<in>set w1. is_space c" and "\<forall>c\<in>set w2. is_space c"
  shows \<open>htmlres_open (js ''"htmlres"'' @ w1 @ js '':'' @ w2 @ js ''"'' @ x) = Some x\<close>
proof -
  have a: "spaces (w1 @ 0x3A # w2 @ 0x22 # x) = Some (0x3A # w2 @ 0x22 # x)"
    using assms(1) by (intro spaces_skip) (simp_all add: is_space_def)
  have b: "spaces (w2 @ 0x22 # x) = Some (0x22 # x)"
    using assms(2) by (intro spaces_skip) (simp_all add: is_space_def)
  have c: "lit [0x3A] (0x3A # w2 @ 0x22 # x) = Some (w2 @ 0x22 # x)"
    by (simp add: lit_def)
  have d: "lit [0x22] (0x22 # x) = Some x"
    by (simp add: lit_def)
  have k: \<open>lit (js ''"htmlres"'') (js ''"htmlres"'' @ w1 @ 0x3A # w2 @ 0x22 # x)
      = Some (w1 @ 0x3A # w2 @ 0x22 # x)\<close>
    by (rule lit_append)
  have j: \<open>js '':'' = [0x3A]\<close> \<open>js ''"'' = [0x22]\<close>
    by (simp_all add: js_def)
  show ?thesis
    unfolding htmlres_open_def seq_def j using k by (simp add: a b c d)
qed

lemma htmlres_close_match:
  assumes "\<forall>c\<in>set w3. is_space c"
  shows \<open>htmlres_close (js ''"'' @ w3 @ js ''}'' @ x) = Some x\<close>
proof -
  have b: "spaces (w3 @ 0x7D # x) = Some (0x7D # x)"
    using assms by (intro spaces_skip) (simp_all add: is_space_def)
  have j: \<open>js ''}'' = [0x7D]\<close> \<open>js ''"'' = [0x22]\<close>
    by (simp_all add: js_def)
  show ?thesis
    unfolding htmlres_close_def seq_def j by (simp add: b lit_def)
qed

text \<open>
  A match of the closing part that starts before a quote ends before it: the quote is
  neither white space nor a brace.
\<close>

lemma htmlres_close_inside:
  assumes "htmlres_close x = None" and "x \<noteq> []"
  shows "htmlres_close (x @ 0x22 # y) = None"
proof -
  obtain c cs where x: "x = c # cs" using assms(2) by (cases x) auto
  have j: \<open>js ''}'' = [0x7D]\<close> \<open>js ''"'' = [0x22]\<close>
    by (simp_all add: js_def)
  show ?thesis
  proof (cases "c = 0x22")
    case False
    then show ?thesis
      unfolding htmlres_close_def seq_def j x by (simp add: lit_def)
  next
    case True
    have n: "\<not> is_space 0x22" by (simp add: is_space_def)
    show ?thesis
    proof (cases "\<forall>a\<in>set cs. is_space a")
      case all: True
      then have "dropWhile is_space (cs @ 0x22 # y) = 0x22 # y"
        using n by (simp add: dropWhile_append)
      then show ?thesis
        unfolding htmlres_close_def seq_def j x using True
        by (simp add: lit_def spaces_def)
    next
      case some: False
      then have d: "dropWhile is_space (cs @ 0x22 # y) = dropWhile is_space cs @ 0x22 # y"
        by (auto simp: dropWhile_append)
      from some have ne: "dropWhile is_space cs \<noteq> []"
        by (simp add: dropWhile_eq_Nil_conv)
      then obtain a as where as: "dropWhile is_space cs = a # as"
        by (cases "dropWhile is_space cs") auto
      from assms(1) have "a \<noteq> 0x7D"
        unfolding htmlres_close_def seq_def j x using True as
        by (auto simp: lit_def spaces_def split: if_splits)
      then show ?thesis
        unfolding htmlres_close_def seq_def j x using True
        by (simp add: lit_def spaces_def d as)
    qed
  qed
qed

section \<open>The calls of convertHTMLtoPDF\<close>

lemma try_block_cases:
  "try_block e h = (r, calls, b) \<Longrightarrow>
     (calls = [] \<and> \<not> b \<and> trim h = []) \<or>
     (calls = [Launch the_launch_options] \<and> \<not> b \<and> launch e the_launch_options \<noteq> None \<and> trim h \<noteq> []) \<or>
     (b \<and> launch e the_launch_options = None \<and> trim h \<noteq> [] \<and>
       (calls = [Launch the_launch_options, NewPage] \<and> newPage e \<noteq> None \<or>
        calls = [Launch the_launch_options, NewPage,
                 SetContent (trim (replace_all fence_html_re [] (trim h))) the_content_options] \<and>
          newPage e = None \<and>
          setContent e (trim (replace_all fence_html_re [] (trim h))) the_content_options \<noteq> None \<or>
        calls = [Launch the_launch_options, NewPage,
                 SetContent (trim (replace_all fence_html_re [] (trim h))) the_content_options,
                 Pdf the_pdf_options] \<and>
          newPage e = None \<and>
          setContent e (trim (replace_all fence_html_re [] (trim h))) the_content_options = None))"
  by (auto simp: try_block_def Let_def trim_def split: if_splits option.splits)

lemma calls_of_convert:
  "try_block e h = (r, calls, b) \<Longrightarrow>
   snd (convertHTMLtoPDF e h) = (if b then calls @ [Close] else calls)"
  by (simp add: convertHTMLtoPDF_def split: option.splits)

text \<open>The \<^verbatim>\<open>try\<close> block when the calls before the request succeed.\<close>

lemma try_block_success:
  assumes "trim h \<noteq> []" and "launch e the_launch_options = None" and "newPage e = None"
    and "setContent e (trim (replace_all fence_html_re [] (trim h))) the_content_options = None"
  shows "try_block e h =
     (pdf e the_pdf_options,
      [Launch the_launch_options, NewPage,
       SetContent (trim (replace_all fence_html_re [] (trim h))) the_content_options,
       Pdf the_pdf_options], True)"
proof -
  have "h \<noteq> []" using assms(1) by (auto simp: trim_def)
  then show ?thesis using assms by (simp add: try_block_def Let_def)
qed

section \<open>The response extractor\<close>

text \<open>
  Claim C1.  When the cleaned response parses as JSON and the property \<^verbatim>\<open>htmlres\<close> of
  the parsed value is truthy (a non-empty string in particular), \<open>parseAIResponse\<close>
  returns exactly that value, whatever the two fallbacks would find in the response.
\<close>

theorem json_value_returned:
  assumes "JSON_parse (cleanResponse s) = Some j"
    and "get_property j (js ''htmlres'') = Inr (Some v)"
    and "truthy v"
  shows "parseAIResponse s = Inr v"
  using assms by (simp add: parseAIResponse_def json_path_def)

text \<open>
  A fenced response whose other field holds an \<^verbatim>\<open><html>\<close> span: the field is returned,
  not the span the last fallback finds.
\<close>

theorem json_value_returned_witness:
  \<open>parseAIResponse (js ''```json {"other": "<html>no</html>", "htmlres": "<p>yes</p>"} ```'')
     = Inr (JString (js ''<p>yes</p>'')) \<and>
   re_search html_re (js ''```json {"other": "<html>no</html>", "htmlres": "<p>yes</p>"} ```'')
     = Some (js ''<html>no</html>'')\<close>
proof (intro conjI)
  show \<open>parseAIResponse (js ''```json {"other": "<html>no</html>", "htmlres": "<p>yes</p>"} ```'')
     = Inr (JString (js ''<p>yes</p>''))\<close>
  proof (rule json_value_returned)
    show \<open>JSON_parse (cleanResponse (js ''```json {"other": "<html>no</html>", "htmlres": "<p>yes</p>"} ```''))
       = Some (JObject [(js ''other'', JString (js ''<html>no</html>'')),
                        (js ''htmlres'', JString (js ''<p>yes</p>''))])\<close>
      by code_simp
    show \<open>get_property (JObject [(js ''other'', JString (js ''<html>no</html>'')),
                                 (js ''htmlres'', JString (js ''<p>yes</p>''))]) (js ''htmlres'')
       = Inr (Some (JString (js ''<p>yes</p>'')))\<close>
      by code_simp
    show "truthy (JString (js ''<p>yes</p>''))"
      by code_simp
  qed
  show \<open>re_search html_re (js ''```json {"other": "<html>no</html>", "htmlres": "<p>yes</p>"} ```'')
     = Some (js ''<html>no</html>'')\<close>
    by code_simp
qed

text \<open>
  Claim C2, as the program has it.  The expression for the field ends with a closing
  brace: \<^verbatim>\<open>"htmlres"\<close>, white space, a colon, white space, a quote, the value, a quote,
  white space and \<^verbatim>\<open>}\<close>.  When the inner \<^verbatim>\<open>try\<close> does not return, the response holds
  such a text at the first occurrence of \<^verbatim>\<open>"htmlres"\<close>, and the value \<open>v\<close> holds no
  quote followed by white space and a brace, then \<open>parseAIResponse\<close> returns \<open>v\<close>,
  whatever stands before and after.
\<close>

theorem htmlres_regex_capture:
  assumes nojson: "json_path (cleanResponse s) = None"
    and s: \<open>s = pre @ js ''"htmlres"'' @ w1 @ js '':'' @ w2 @ js ''"'' @ v @ js ''"'' @ w3 @ js ''}'' @ post\<close>
    and ws: "\<forall>c\<in>set (w1 @ w2 @ w3). is_space c"
    and first: \<open>re_search (lit (js ''"htmlres"'')) (pre @ js ''"htmlres'') = None\<close>
    and shortest: "re_search htmlres_close v = None"
  shows "parseAIResponse s = Inr (JString v)"
proof -
  let ?t = \<open>js ''"'' @ w3 @ js ''}'' @ post\<close>
  let ?K = \<open>js ''"htmlres"'' @ w1 @ js '':'' @ w2 @ js ''"'' @ v @ ?t\<close>
  have q: \<open>js ''"'' = [0x22]\<close> by (simp add: js_def)
  have tk: \<open>take (length (js ''"htmlres"'') - 1) ?K = js ''"htmlres''\<close>
    by (simp add: js_def)
  have before: "htmlres_re (drop i (pre @ ?K)) = None" if "i < length pre" for i
  proof -
    have \<open>lit (js ''"htmlres"'') (drop i (pre @ ?K)) = None\<close>
      using first that by (intro lit_window) (simp_all only: tk)
    then show ?thesis
      by (simp add: htmlres_re_def htmlres_open_def seq_def)
  qed
  have inside: "htmlres_close (drop i (v @ ?t)) = None" if "i < length v" for i
  proof -
    have "htmlres_close (drop i v) = None"
      using shortest that unfolding re_search_None_iff by simp
    moreover have "drop i v \<noteq> []" using that by simp
    ultimately have "htmlres_close (drop i v @ 0x22 # w3 @ js ''}'' @ post) = None"
      by (rule htmlres_close_inside)
    then show ?thesis using that by (simp add: q)
  qed
  have "htmlres_close ?t = Some post"
    using ws by (intro htmlres_close_match) simp
  with inside have "lazy_any htmlres_close (v @ ?t) = Some (v, post)"
    by (intro lazy_any_first)
  moreover have "htmlres_open ?K = Some (v @ ?t)"
    using ws by (intro htmlres_open_match) simp_all
  ultimately have "htmlres_re ?K = Some v"
    by (simp add: htmlres_re_def)
  then have "re_search htmlres_re ?K = Some v"
    by (rule re_search_here)
  moreover have "re_search htmlres_re (pre @ ?K) = re_search htmlres_re ?K"
    using before by (rule re_search_skip)
  ultimately have "re_search htmlres_re s = Some v"
    unfolding s by simp
  then show ?thesis
    using nojson by (simp add: parseAIResponse_def)
qed

theorem htmlres_regex_capture_witness:
  \<open>parseAIResponse (js ''Sure! {"htmlres" : "<p>Hi</p>" } and more'')
     = Inr (JString (js ''<p>Hi</p>''))\<close>
proof (rule htmlres_regex_capture)
  show \<open>json_path (cleanResponse (js ''Sure! {"htmlres" : "<p>Hi</p>" } and more'')) = None\<close>
    by code_simp
  show \<open>js ''Sure! {"htmlres" : "<p>Hi</p>" } and more''
     = js ''Sure! {'' @ js ''"htmlres"'' @ js '' '' @ js '':'' @ js '' '' @ js ''"'' @
       js ''<p>Hi</p>'' @ js ''"'' @ js '' '' @ js ''}'' @ js '' and more''\<close>
    by (simp add: js_def)
  show "\<forall>c\<in>set (js '' '' @ js '' '' @ js '' ''). is_space c"
    by (simp add: js_def is_space_def)
  show \<open>re_search (lit (js ''"htmlres"'')) (js ''Sure! {'' @ js ''"htmlres'') = None\<close>
    by code_simp
  show "re_search htmlres_close (js ''<p>Hi</p>'') = None"
    by code_simp
qed

text \<open>
  The field with its quotes intact, in a text that a trailing comma keeps from being
  JSON: the quote that ends the value is not followed by a brace, and nothing is
  recovered.
\<close>

theorem htmlres_regex_needs_brace:
  \<open>JSON_parse (cleanResponse (js ''{"htmlres": "<p>Hi</p>", }'')) = None \<and>
   parseAIResponse (js ''{"htmlres": "<p>Hi</p>", }'')
     = Inl (Error ''Could not extract HTML content from AI response'')\<close>
  by code_simp

text \<open>
  Claim C3, as the program has it.  The star of the last expression is lazy.  When the
  inner \<^verbatim>\<open>try\<close> does not return and the expression for the field matches nowhere,
  and the response holds \<^verbatim>\<open><html\<close> in any case, first at the end of \<open>pre\<close>, and after
  it \<^verbatim>\<open></html>\<close> in any case, first at the end of \<open>mid\<close>, then \<open>parseAIResponse\<close>
  returns the text from that opening to that first closing tag, as it stands in the
  response.
\<close>

theorem direct_html_span:
  assumes nojson: "json_path (cleanResponse s) = None"
    and nofield: "re_search htmlres_re s = None"
    and s: "s = pre @ opn @ mid @ cls @ post"
    and opn: "map canon opn = map canon (js ''<html'')"
    and cls: "map canon cls = map canon (js ''</html>'')"
    and first: "re_search (lit_ci (js ''<html'')) (pre @ take 4 opn) = None"
    and shortest: "re_search (lit_ci (js ''</html>'')) (mid @ take 6 cls) = None"
  shows "parseAIResponse s = Inr (JString (opn @ mid @ cls))"
proof -
  let ?K = "opn @ mid @ cls @ post"
  have "length (map canon opn) = length (map canon (js ''<html''))"
    using opn by simp
  then have lo: "length opn = 5" by (simp add: js_def)
  have "length (map canon cls) = length (map canon (js ''</html>''))"
    using cls by simp
  then have lc: "length cls = 7" by (simp add: js_def)
  have tko: "take (length (js ''<html'') - 1) ?K = take 4 opn"
    using lo by (simp add: js_def eval_nat_numeral)
  have tkc: "take (length (js ''</html>'') - 1) (cls @ post) = take 6 cls"
    using lc by (simp add: js_def eval_nat_numeral)
  have before: "html_re (drop i (pre @ ?K)) = None" if "i < length pre" for i
  proof -
    have "lit_ci (js ''<html'') (drop i (pre @ ?K)) = None"
      using first that by (intro lit_ci_window) (simp_all only: tko)
    then show ?thesis
      by (simp add: html_re_def)
  qed
  have inside: "lit_ci (js ''</html>'') (drop i (mid @ cls @ post)) = None" if "i < length mid" for i
    using shortest that by (intro lit_ci_window) (simp_all only: tkc)
  have "lit_ci (js ''</html>'') (cls @ post) = Some post"
    using cls by (rule lit_ci_match)
  with inside have "lazy_any (lit_ci (js ''</html>'')) (mid @ cls @ post) = Some (mid, post)"
    by (intro lazy_any_first)
  moreover have "lit_ci (js ''<html'') ?K = Some (mid @ cls @ post)"
    using opn by (rule lit_ci_match)
  ultimately have "html_re ?K = Some (opn @ mid @ cls)"
    by (simp add: html_re_def)
  then have "re_search html_re ?K = Some (opn @ mid @ cls)"
    by (rule re_search_here)
  moreover have "re_search html_re (pre @ ?K) = re_search html_re ?K"
    using before by (rule re_search_skip)
  ultimately have "re_search html_re s = Some (opn @ mid @ cls)"
    unfolding s by simp
  then show ?thesis
    using nojson nofield by (simp add: parseAIResponse_def)
qed

theorem direct_html_span_witness:
  "parseAIResponse (js ''Here it is: <HTML><body>Hi</body></Html> and </html> again'')
     = Inr (JString (js ''<HTML><body>Hi</body></Html>''))"
proof -
  have d: "js ''Here it is: <HTML><body>Hi</body></Html> and </html> again''
     = js ''Here it is: '' @ js ''<HTML'' @ js ''><body>Hi</body>'' @ js ''</Html>'' @
       js '' and </html> again''"
    by (simp add: js_def)
  have "parseAIResponse (js ''Here it is: <HTML><body>Hi</body></Html> and </html> again'')
     = Inr (JString (js ''<HTML'' @ js ''><body>Hi</body>'' @ js ''</Html>''))"
  proof (rule direct_html_span [OF _ _ d])
    show "json_path (cleanResponse (js ''Here it is: <HTML><body>Hi</body></Html> and </html> again'')) = None"
      by code_simp
    show "re_search htmlres_re (js ''Here it is: <HTML><body>Hi</body></Html> and </html> again'') = None"
      by code_simp
    show "map canon (js ''<HTML'') = map canon (js ''<html'')"
      by code_simp
    show "map canon (js ''</Html>'') = map canon (js ''</html>'')"
      by code_simp
    show "re_search (lit_ci (js ''<html'')) (js ''Here it is: '' @ take 4 (js ''<HTML'')) = None"
      by code_simp
    show "re_search (lit_ci (js ''</html>'')) (js ''><body>Hi</body>'' @ take 6 (js ''</Html>'')) = None"
      by code_simp
  qed
  then show ?thesis by (simp add: js_def)
qed

text \<open>
  A response with two closing tags: the result ends at the first one, not at the last.
\<close>

theorem direct_html_first_closing_tag:
  "json_path (cleanResponse (js ''<html>a</html>b</html>'')) = None \<and>
   re_search htmlres_re (js ''<html>a</html>b</html>'') = None \<and>
   parseAIResponse (js ''<html>a</html>b</html>'') = Inr (JString (js ''<html>a</html>''))"
  by code_simp

text \<open>
  Claim C9.  When the inner \<^verbatim>\<open>try\<close> does not return and neither expression matches
  anywhere in the response, \<open>parseAIResponse\<close> throws the error and returns nothing.
\<close>

theorem no_html_recoverable:
  assumes "json_path (cleanResponse s) = None"
    and "re_search htmlres_re s = None"
    and "re_search html_re s = None"
  shows "parseAIResponse s = Inl (Error ''Could not extract HTML content from AI response'')"
  using assms by (simp add: parseAIResponse_def)

theorem no_html_recoverable_witness:
  "parseAIResponse (js ''I am sorry, I cannot produce a resume.'')
     = Inl (Error ''Could not extract HTML content from AI response'')"
proof (rule no_html_recoverable)
  show "json_path (cleanResponse (js ''I am sorry, I cannot produce a resume.'')) = None"
    by code_simp
  show "re_search htmlres_re (js ''I am sorry, I cannot produce a resume.'') = None"
    by code_simp
  show "re_search html_re (js ''I am sorry, I cannot produce a resume.'') = None"
    by code_simp
qed

text \<open>
  Claim C10.  When the cleaned response parses as JSON and its property \<^verbatim>\<open>htmlres\<close>
  is the empty string, the inner \<^verbatim>\<open>try\<close> does not return it: the result is that of
  the two fallbacks.  On the response of the claim both fallbacks fail, and the error is
  thrown.
\<close>

theorem empty_htmlres_falls_through:
  assumes "JSON_parse (cleanResponse s) = Some j"
    and "get_property j (js ''htmlres'') = Inr (Some (JString []))"
  shows "parseAIResponse s =
     (case re_search htmlres_re s of
        Some m \<Rightarrow> Inr (JString m)
      | None \<Rightarrow>
          (case re_search html_re s of
             Some d \<Rightarrow> Inr (JString d)
           | None \<Rightarrow> Inl (Error ''Could not extract HTML content from AI response'')))"
  using assms by (simp add: parseAIResponse_def json_path_def)

theorem empty_htmlres_falls_through_witness:
  \<open>parseAIResponse (js ''{"htmlres": "", "other": 1}'')
     = Inl (Error ''Could not extract HTML content from AI response'')\<close>
proof -
  have p: \<open>JSON_parse (cleanResponse (js ''{"htmlres": "", "other": 1}''))
     = Some (JObject [(js ''htmlres'', JString []), (js ''other'', JNumber False 1 0)])\<close>
    by code_simp
  have g: \<open>get_property (JObject [(js ''htmlres'', JString []), (js ''other'', JNumber False 1 0)])
     (js ''htmlres'') = Inr (Some (JString []))\<close>
    by code_simp
  have r: \<open>re_search htmlres_re (js ''{"htmlres": "", "other": 1}'') = None\<close>
    by code_simp
  have h: \<open>re_search html_re (js ''{"htmlres": "", "other": 1}'') = None\<close>
    by code_simp
  show ?thesis
    using empty_htmlres_falls_through [OF p g] by (simp add: r h)
qed

section \<open>The normalizer\<close>

text \<open>
  Claim C5.  On the three code units backslash, backslash, \<^verbatim>\<open>n\<close> the first
  substitution replaces the second backslash and the \<^verbatim>\<open>n\<close> by a line feed; the
  result is a backslash followed by a line feed, not a backslash followed by \<^verbatim>\<open>n\<close>.
\<close>

theorem decode_double_backslash_n:
  "decodeHTMLContent [BSL, BSL, 0x6E] = [BSL, 0x0A] \<and>
   decodeHTMLContent [BSL, BSL, 0x6E] \<noteq> [BSL, 0x6E]"
  by code_simp

text \<open>
  Claim C6, as the program has it.  On a string in which none of the eleven sequences
  occurs, \<open>decodeHTMLContent\<close> changes nothing.
\<close>

theorem decode_without_sequences:
  "\<forall>(p, r) \<in> set decode_steps. re_search (lit p) s = None \<Longrightarrow> decodeHTMLContent s = s"
  unfolding decodeHTMLContent_def by (simp add: fold_replace_no_match)

theorem decode_without_sequences_witness:
  "decodeHTMLContent (js ''<p>a & b</p>'') = js ''<p>a & b</p>''"
proof (rule decode_without_sequences)
  show "\<forall>(p, r) \<in> set decode_steps. re_search (lit p) (js ''<p>a & b</p>'') = None"
    by code_simp
qed

text \<open>
  A result of \<open>decodeHTMLContent\<close> that a second application changes: one pass resolves
  one level of \<^verbatim>\<open>&amp;\<close>.
\<close>

theorem decode_not_idempotent:
  "decodeHTMLContent (js ''&amp;amp;'') = js ''&amp;'' \<and>
   decodeHTMLContent (decodeHTMLContent (js ''&amp;amp;'')) = js ''&''"
  by code_simp

section \<open>The page renderer\<close>

text \<open>
  Claim C4, as the program has it.  The test for empty content comes before the fence
  markers are removed.  On an input that is empty after trimming, \<open>convertHTMLtoPDF\<close>
  throws the error for empty content and calls nothing of the engine.
\<close>

theorem empty_input_no_launch:
  assumes "trim h = []"
  shows "convertHTMLtoPDF e h
     = (Inl (Error ''Failed to convert HTML to PDF: HTML content is empty''), [])"
  using assms by (simp add: convertHTMLtoPDF_def try_block_def)

theorem empty_input_no_launch_witness:
  "convertHTMLtoPDF working_engine (js ''   '')
     = (Inl (Error ''Failed to convert HTML to PDF: HTML content is empty''), [])"
proof (rule empty_input_no_launch)
  show "trim (js ''   '') = []" by code_simp
qed

text \<open>
  An input of fence markers only is empty once they are removed, yet the browser is
  launched, the empty content is loaded and a document is returned.
\<close>

theorem fence_only_input_launches:
  "trim (replace_all fence_html_re [] (trim (js ''```''))) = [] \<and>
   convertHTMLtoPDF working_engine (js ''```'')
     = (Inr [0x25, 0x50, 0x44, 0x46],
        [Launch the_launch_options, NewPage, SetContent [] the_content_options,
         Pdf the_pdf_options, Close])"
proof -
  have a: "trim (js ''```'') = js ''```''"
    by code_simp
  have b: "trim (replace_all fence_html_re [] (js ''```'')) = []"
    by code_simp
  have c: "js ''```'' \<noteq> []"
    by (simp add: js_def)
  show ?thesis
    by (simp add: convertHTMLtoPDF_def try_block_def working_engine_def a b c)
qed

text \<open>
  Claim C7.  Every request for a document that \<open>convertHTMLtoPDF\<close> makes has format A4,
  background graphics, the four margins of 0.5in, the page size of the style sheet
  preferred and the page range \<^verbatim>\<open>1\<close>.  On an input that is not empty after trimming,
  with an engine that launches, opens a page and loads the content, exactly one such
  request is made, and when the browser closes without an error the outcome is that of
  the request: the buffer the engine produced for page 1 is returned as it is, whatever
  the length of the layout, and an error of the request is thrown with its message
  wrapped.
\<close>

theorem pdf_request_options:
  "(\<forall>opts. Pdf opts \<in> set (snd (convertHTMLtoPDF e h)) \<longrightarrow>
      format opts = ''A4'' \<and> printBackground opts \<and>
      margin_top opts = ''0.5in'' \<and> margin_right opts = ''0.5in'' \<and>
      margin_bottom opts = ''0.5in'' \<and> margin_left opts = ''0.5in'' \<and>
      preferCSSPageSize opts \<and> pageRanges opts = ''1'') \<and>
   (trim h \<noteq> [] \<and> launch e the_launch_options = None \<and> newPage e = None \<and>
    setContent e (trim (replace_all fence_html_re [] (trim h))) the_content_options = None \<longrightarrow>
      count_list (snd (convertHTMLtoPDF e h)) (Pdf the_pdf_options) = 1 \<and>
      (\<forall>pdfBuffer. pdf e the_pdf_options = Inr pdfBuffer \<and> close e = None \<longrightarrow>
         fst (convertHTMLtoPDF e h) = Inr pdfBuffer) \<and>
      (\<forall>message. pdf e the_pdf_options = Inl (Error message) \<and> close e = None \<longrightarrow>
         fst (convertHTMLtoPDF e h)
           = Inl (Error (''Failed to convert HTML to PDF: '' @ message))))"
proof -
  obtain r calls b where t: "try_block e h = (r, calls, b)"
    by (cases "try_block e h") auto
  have requests: "\<forall>opts. Pdf opts \<in> set (snd (convertHTMLtoPDF e h)) \<longrightarrow>
      format opts = ''A4'' \<and> printBackground opts \<and>
      margin_top opts = ''0.5in'' \<and> margin_right opts = ''0.5in'' \<and>
      margin_bottom opts = ''0.5in'' \<and> margin_left opts = ''0.5in'' \<and>
      preferCSSPageSize opts \<and> pageRanges opts = ''1''"
    using try_block_cases [OF t] unfolding calls_of_convert [OF t]
    by (auto simp: the_pdf_options_def)
  have outcome: "count_list (snd (convertHTMLtoPDF e h)) (Pdf the_pdf_options) = 1 \<and>
      (\<forall>pdfBuffer. pdf e the_pdf_options = Inr pdfBuffer \<and> close e = None \<longrightarrow>
         fst (convertHTMLtoPDF e h) = Inr pdfBuffer) \<and>
      (\<forall>message. pdf e the_pdf_options = Inl (Error message) \<and> close e = None \<longrightarrow>
         fst (convertHTMLtoPDF e h)
           = Inl (Error (''Failed to convert HTML to PDF: '' @ message)))"
    if ok: "trim h \<noteq> []" "launch e the_launch_options = None" "newPage e = None"
      "setContent e (trim (replace_all fence_html_re [] (trim h))) the_content_options = None"
  proof -
    have tb: "try_block e h =
        (pdf e the_pdf_options,
         [Launch the_launch_options, NewPage,
          SetContent (trim (replace_all fence_html_re [] (trim h))) the_content_options,
          Pdf the_pdf_options], True)"
      by (rule try_block_success [OF ok])
    have "count_list (snd (convertHTMLtoPDF e h)) (Pdf the_pdf_options) = 1"
      unfolding calls_of_convert [OF tb] by simp
    moreover have "fst (convertHTMLtoPDF e h) = Inr pdfBuffer"
      if "pdf e the_pdf_options = Inr pdfBuffer \<and> close e = None" for pdfBuffer
      using that by (simp add: convertHTMLtoPDF_def tb)
    moreover have "fst (convertHTMLtoPDF e h)
        = Inl (Error (''Failed to convert HTML to PDF: '' @ message))"
      if "pdf e the_pdf_options = Inl (Error message) \<and> close e = None" for message
      using that by (simp add: convertHTMLtoPDF_def tb)
    ultimately show ?thesis by blast
  qed
  show ?thesis using requests outcome by blast
qed

text \<open>
  A document on an engine whose calls succeed: the buffer of the engine is returned, and
  the one request carries the options of the claim.
\<close>

theorem pdf_request_options_witness:
  "convertHTMLtoPDF working_engine (js ''<html><body>Hi</body></html>'')
     = (Inr [0x25, 0x50, 0x44, 0x46],
        [Launch the_launch_options, NewPage,
         SetContent (js ''<html><body>Hi</body></html>'') the_content_options,
         Pdf \<lparr>format = ''A4'', printBackground = True,
              margin_top = ''0.5in'', margin_right = ''0.5in'',
              margin_bottom = ''0.5in'', margin_left = ''0.5in'',
              preferCSSPageSize = True, pageRanges = ''1''\<rparr>, Close])"
proof -
  let ?h = "js ''<html><body>Hi</body></html>''"
  have a: "trim ?h = ?h"
    by code_simp
  have b: "trim (replace_all fence_html_re [] ?h) = ?h"
    by code_simp
  have n: "?h \<noteq> []"
    by (simp add: js_def)
  have c: "snd (convertHTMLtoPDF working_engine ?h)
     = [Launch the_launch_options, NewPage, SetContent ?h the_content_options,
        Pdf the_pdf_options, Close]"
    by (simp add: convertHTMLtoPDF_def try_block_def working_engine_def a b n)
  have ok: "trim ?h \<noteq> [] \<and> launch working_engine the_launch_options = None \<and>
      newPage working_engine = None \<and>
      setContent working_engine (trim (replace_all fence_html_re [] (trim ?h)))
        the_content_options = None"
    by (simp add: working_engine_def a n)
  have p: "pdf working_engine the_pdf_options = Inr [0x25, 0x50, 0x44, 0x46] \<and>
      close working_engine = None"
    by (simp add: working_engine_def)
  have f: "fst (convertHTMLtoPDF working_engine ?h) = Inr [0x25, 0x50, 0x44, 0x46]"
    using pdf_request_options [of working_engine ?h] ok p by blast
  have "Pdf the_pdf_options \<in> set (snd (convertHTMLtoPDF working_engine ?h))"
    by (simp add: c)
  then have "format the_pdf_options = ''A4'' \<and> printBackground the_pdf_options \<and>
      margin_top the_pdf_options = ''0.5in'' \<and> margin_right the_pdf_options = ''0.5in'' \<and>
      margin_bottom the_pdf_options = ''0.5in'' \<and> margin_left the_pdf_options = ''0.5in'' \<and>
      preferCSSPageSize the_pdf_options \<and> pageRanges the_pdf_options = ''1''"
    using pdf_request_options [of working_engine ?h] by blast
  then have "the_pdf_options = \<lparr>format = ''A4'', printBackground = True,
             margin_top = ''0.5in'', margin_right = ''0.5in'',
             margin_bottom = ''0.5in'', margin_left = ''0.5in'',
             preferCSSPageSize = True, pageRanges = ''1''\<rparr>"
    by (cases the_pdf_options) simp
  then show ?thesis using c f by (simp add: prod_eq_iff)
qed

text \<open>
  Claim C8.  \<^verbatim>\<open>close\<close> is called exactly when \<^verbatim>\<open>launch\<close> was called and returned a
  browser, whatever the later calls do; it is then called once, and it is the last call
  before \<open>convertHTMLtoPDF\<close> returns or throws.
\<close>

theorem browser_closed_on_every_path:
  "(Close \<in> set (snd (convertHTMLtoPDF e h)) \<longleftrightarrow>
      Launch the_launch_options \<in> set (snd (convertHTMLtoPDF e h)) \<and>
      launch e the_launch_options = None) \<and>
   (Close \<in> set (snd (convertHTMLtoPDF e h)) \<longrightarrow>
      last (snd (convertHTMLtoPDF e h)) = Close \<and>
      count_list (snd (convertHTMLtoPDF e h)) Close = 1)"
proof -
  obtain r calls b where t: "try_block e h = (r, calls, b)"
    by (cases "try_block e h") auto
  show ?thesis
    using try_block_cases [OF t] unfolding calls_of_convert [OF t]
    by auto
qed

text \<open>
  An engine whose \<^verbatim>\<open>pdf\<close> call throws: the error is wrapped and the browser is closed.
\<close>

theorem browser_closed_on_every_path_witness:
  "convertHTMLtoPDF (working_engine\<lparr>pdf := \<lambda>_. Inl (Error ''Printing failed'')\<rparr>) (js ''<p>Hi</p>'')
     = (Inl (Error ''Failed to convert HTML to PDF: Printing failed''),
        [Launch the_launch_options, NewPage, SetContent (js ''<p>Hi</p>'') the_content_options,
         Pdf the_pdf_options, Close]) \<and>
   last (snd (convertHTMLtoPDF (working_engine\<lparr>pdf := \<lambda>_. Inl (Error ''Printing failed'')\<rparr>)
     (js ''<p>Hi</p>''))) = Close \<and>
   count_list (snd (convertHTMLtoPDF (working_engine\<lparr>pdf := \<lambda>_. Inl (Error ''Printing failed'')\<rparr>)
     (js ''<p>Hi</p>''))) Close = 1"
proof -
  let ?e = "working_engine\<lparr>pdf := \<lambda>_. Inl (Error ''Printing failed'')\<rparr>"
  have a: "trim (js ''<p>Hi</p>'') = js ''<p>Hi</p>''"
    by code_simp
  have b: "trim (replace_all fence_html_re [] (js ''<p>Hi</p>'')) = js ''<p>Hi</p>''"
    by code_simp
  have n: "js ''<p>Hi</p>'' \<noteq> []"
    by (simp add: js_def)
  have c: "convertHTMLtoPDF ?e (js ''<p>Hi</p>'')
     = (Inl (Error ''Failed to convert HTML to PDF: Printing failed''),
        [Launch the_launch_options, NewPage, SetContent (js ''<p>Hi</p>'') the_content_options,
         Pdf the_pdf_options, Close])"
    by (simp add: convertHTMLtoPDF_def try_block_def working_engine_def a b n)
  then have "Close \<in> set (snd (convertHTMLtoPDF ?e (js ''<p>Hi</p>'')))"
    by simp
  then have "last (snd (convertHTMLtoPDF ?e (js ''<p>Hi</p>''))) = Close \<and>
      count_list (snd (convertHTMLtoPDF ?e (js ''<p>Hi</p>''))) Close = 1"
    using browser_closed_on_every_path [of ?e "js ''<p>Hi</p>''"] by blast
  then show ?thesis using c by blast
qed

end
